theory Spec2Isabelle
  imports Main "HOL-Library.Word"
begin

section \<open>Brainchild front-end helpers (static/js/main.js)\<close>

text \<open>
  A shallow embedding of the pure and the small stateful helpers of the \<open>Brainchild\<close>
  namespace object: \<open>utils.debounce\<close>, \<open>utils.formatBytes\<close>, \<open>utils.validateImageFile\<close>,
  \<open>utils.escapeHtml\<close>, \<open>ui.showConfirmModal\<close>, \<open>ui.setButtonLoading\<close>,
  \<open>forms.validateField\<close> with \<open>forms.updateFieldValidationState\<close> and the registry
  \<open>forms.customValidations\<close>, and the global \<open>window.showConfirmModal\<close>.
\<close>

subsection \<open>JavaScript strings\<close>

text \<open>
  A JavaScript string is a sequence of UTF-16 code units; \<open>length\<close>, \<open>trim\<close>, \<open>replace\<close>
  and the regular expressions of the file (none has the \<open>u\<close> flag) all work on code units.
  \<open>js\<close> embeds a literal whose characters are below U+0100, so that the accented letters of
  the Portuguese messages are written \<open>CHR 0xE9\<close> and the like.
\<close>

type_synonym jschar = "16 word"
type_synonym jsstring = "jschar list"

definition js :: "string \<Rightarrow> jsstring" where
  "js s = map of_char s"

text \<open>
  WhiteSpace and LineTerminator of ECMAScript: what \<open>String.prototype.trim\<close> strips, what
  \<open>parseInt\<close> skips at the start, and the class \<open>\s\<close> of a regular expression.
\<close>

definition isWhiteSpace :: "jschar \<Rightarrow> bool" where
  "isWhiteSpace c \<longleftrightarrow>
     c \<in> set [0x09, 0x0A, 0x0B, 0x0C, 0x0D, 0x20, 0xA0, 0x1680,
               0x2028, 0x2029, 0x202F, 0x205F, 0x3000, 0xFEFF]
     \<or> (0x2000 \<le> c \<and> c \<le> 0x200A)"

definition trim :: "jsstring \<Rightarrow> jsstring" where
  "trim s = rev (dropWhile isWhiteSpace (rev (dropWhile isWhiteSpace s)))"

text \<open>A string is falsy exactly when it is empty; \<open>null\<close> (here \<open>None\<close>) is falsy.\<close>

definition truthy :: "jsstring option \<Rightarrow> bool" where
  "truthy v \<longleftrightarrow> (case v of None \<Rightarrow> False | Some s \<Rightarrow> s \<noteq> [])"

text \<open>Decimal digits of a natural number, as \<open>Number.prototype.toString\<close> prints an integer.\<close>

fun showNat :: "nat \<Rightarrow> jsstring" where
  "showNat n = (if n < 10 then [of_nat (48 + n)] else showNat (n div 10) @ [of_nat (48 + n mod 10)])"

declare showNat.simps [simp del]

text \<open>
  \<open>parseInt(string)\<close> with no radix: leading white space is skipped, a sign is read, a
  prefix \<open>0x\<close> or \<open>0X\<close> selects radix 16, and the longest run of digits is the value; no
  digit at all gives \<open>NaN\<close>, here \<open>None\<close>. The result is kept as an exact integer: the
  code only compares it with a string length, which is below \<open>2 ^ 53\<close>, and rounding an
  integer to the nearest double never moves it across such a length.
\<close>

definition digitValue :: "jschar \<Rightarrow> nat option" where
  "digitValue c =
     (if 0x30 \<le> c \<and> c \<le> 0x39 then Some (unat c - 48)
      else if 0x61 \<le> c \<and> c \<le> 0x7A then Some (unat c - 87)
      else if 0x41 \<le> c \<and> c \<le> 0x5A then Some (unat c - 55)
      else None)"

definition isRadixDigit :: "nat \<Rightarrow> jschar \<Rightarrow> bool" where
  "isRadixDigit r c \<longleftrightarrow> (case digitValue c of None \<Rightarrow> False | Some d \<Rightarrow> d < r)"

definition parseInt :: "jsstring \<Rightarrow> int option" where
  "parseInt string =
     (let s = dropWhile isWhiteSpace string;
          sign = (if s \<noteq> [] \<and> hd s = 0x2D then - 1 else 1);
          s = (if s \<noteq> [] \<and> (hd s = 0x2B \<or> hd s = 0x2D) then tl s else s);
          stripPrefix = (take 2 s = js ''0x'' \<or> take 2 s = js ''0X'');
          r = (if stripPrefix then 16 else 10);
          s = (if stripPrefix then drop 2 s else s);
          z = takeWhile (isRadixDigit r) s
      in if z = [] then None
         else Some (sign * int (foldl (\<lambda>a c. a * r + the (digitValue c)) 0 z)))"

subsection \<open>Configuration\<close>

record brainchild_config =
  animationDuration :: nat
  debounceDelay :: nat
  maxFileSize :: nat
  allowedImageTypes :: "jsstring list"

definition config :: brainchild_config where
  "config = \<lparr> animationDuration = 300, debounceDelay = 300,
              maxFileSize = 16 * 1024 * 1024,
              allowedImageTypes = [js ''image/jpeg'', js ''image/jpg'', js ''image/png'',
                                   js ''image/gif'', js ''image/webp''] \<rparr>"

datatype error = RangeError | TypeError

subsection \<open>utils.debounce\<close>

text \<open>
  The host's timers are a table of pending entries (handle, due time, the arguments the
  arrow function \<open>later\<close> closed over) and a clock in milliseconds. The model is the
  idealised event loop: a timer runs when the clock reaches its due time, but never inside
  the task that is running, so a call of the wrapper made at the very instant a timer
  falls due comes before that timer (and clears it). The closure that \<open>debounce\<close>
  returns holds \<open>wait\<close> (here \<open>wait_ms\<close>) and the variable \<open>timeout\<close>, \<open>None\<close> while
  it is \<open>undefined\<close>; \<open>invocations\<close> records every call of \<open>func\<close> with the time and
  the arguments.
\<close>

type_synonym 'a timer = "nat \<times> nat \<times> 'a"

record 'a debounced =
  wait_ms :: nat
  clock :: nat
  timer_table :: "'a timer list"
  next_handle :: nat
  timeout :: "nat option"
  invocations :: "(nat \<times> 'a) list"

definition clearTimeout :: "nat option \<Rightarrow> 'a debounced \<Rightarrow> 'a debounced" where
  "clearTimeout h s =
     (case h of None \<Rightarrow> s
      | Some i \<Rightarrow> s\<lparr>timer_table := filter (\<lambda>e. fst e \<noteq> i) (timer_table s)\<rparr>)"

definition setTimeout :: "'a \<Rightarrow> nat \<Rightarrow> 'a debounced \<Rightarrow> nat \<times> 'a debounced" where
  "setTimeout args wait s =
     (next_handle s,
      s\<lparr>timer_table := timer_table s @ [(next_handle s, clock s + wait, args)],
        next_handle := Suc (next_handle s)\<rparr>)"

definition later :: "'a \<Rightarrow> 'a debounced \<Rightarrow> 'a debounced" where
  "later args s =
     (let s = clearTimeout (timeout s) s
      in s\<lparr>invocations := invocations s @ [(clock s, args)]\<rparr>)"

definition executedFunction :: "'a \<Rightarrow> 'a debounced \<Rightarrow> 'a debounced" where
  "executedFunction args s =
     (let s = clearTimeout (timeout s) s;
          (h, s) = setTimeout args (wait_ms s) s
      in s\<lparr>timeout := Some h\<rparr>)"

definition debounce :: "nat \<Rightarrow> 'a debounced" where
  "debounce wait = \<lparr> wait_ms = wait, clock = 0, timer_table = [], next_handle = 1,
                     timeout = None, invocations = [] \<rparr>"

text \<open>The pending timer that runs next before time \<open>t\<close>: the earliest due, the oldest first.\<close>

definition next_due :: "nat \<Rightarrow> 'a timer list \<Rightarrow> 'a timer option" where
  "next_due t ts =
     (case filter (\<lambda>e. fst (snd e) \<le> t) ts of
        [] \<Rightarrow> None
      | e # es \<Rightarrow> Some (fold (\<lambda>y m. if fst (snd y) < fst (snd m) then y else m) es e))"

function run_timers :: "nat \<Rightarrow> 'a debounced \<Rightarrow> 'a debounced" where
  "run_timers t s =
     (case next_due t (timer_table s) of
        None \<Rightarrow> s\<lparr>clock := max (clock s) t\<rparr>
      | Some e \<Rightarrow>
          run_timers t
            (later (snd (snd e))
               (s\<lparr>clock := max (clock s) (fst (snd e)),
                  timer_table := filter (\<lambda>x. fst x \<noteq> fst e) (timer_table s)\<rparr>)))"
  by pat_completeness auto

lemma fold_min_mem:
  "fold (\<lambda>y m. if fst (snd y) < fst (snd m) then y else m) es e \<in> set (e # es)"
  by (induction es arbitrary: e) auto

lemma next_due_mem: "next_due t ts = Some e \<Longrightarrow> e \<in> set ts"
proof -
  assume a: "next_due t ts = Some e"
  then obtain x xs where f: "filter (\<lambda>e. fst (snd e) \<le> t) ts = x # xs"
    by (auto simp: next_due_def split: list.splits)
  with a have "e \<in> set (x # xs)"
    using fold_min_mem [of xs x] by (simp add: next_due_def)
  then have "e \<in> set (filter (\<lambda>e. fst (snd e) \<le> t) ts)" using f by simp
  then show ?thesis by simp
qed

lemma timer_table_later:
  "timer_table (later a s) =
     (case timeout s of None \<Rightarrow> timer_table s
      | Some i \<Rightarrow> filter (\<lambda>e. fst e \<noteq> i) (timer_table s))"
  by (simp add: later_def clearTimeout_def Let_def split: option.splits)

lemma length_timer_table_later: "length (timer_table (later a s)) \<le> length (timer_table s)"
  by (simp add: timer_table_later split: option.splits)

lemma length_filter_mem_less:
  "e \<in> set ts \<Longrightarrow> length (filter (\<lambda>x. fst x \<noteq> fst e) ts) < length ts"
  by (induction ts) (auto simp: less_Suc_eq_le)

termination run_timers
proof (relation "measure (\<lambda>(t, s). length (timer_table s))")
  show "wf (measure (\<lambda>(t, s). length (timer_table s)))" by simp
next
  fix t :: nat and s :: "'a debounced" and e :: "'a timer"
  assume "next_due t (timer_table s) = Some e"
  then have m: "e \<in> set (timer_table s)" by (rule next_due_mem)
  have "length (timer_table (later (snd (snd e))
          (s\<lparr>clock := max (clock s) (fst (snd e)),
             timer_table := filter (\<lambda>x. fst x \<noteq> fst e) (timer_table s)\<rparr>)))
        \<le> length (filter (\<lambda>x. fst x \<noteq> fst e) (timer_table s))"
    using length_timer_table_later [of "snd (snd e)"
        "s\<lparr>clock := max (clock s) (fst (snd e)),
           timer_table := filter (\<lambda>x. fst x \<noteq> fst e) (timer_table s)\<rparr>"]
    by simp
  also have "\<dots> < length (timer_table s)" using m by (rule length_filter_mem_less)
  finally show "((t, later (snd (snd e))
          (s\<lparr>clock := max (clock s) (fst (snd e)),
             timer_table := filter (\<lambda>x. fst x \<noteq> fst e) (timer_table s)\<rparr>)), t, s)
        \<in> measure (\<lambda>(t, s). length (timer_table s))" by simp
qed

declare run_timers.simps [simp del]

text \<open>
  \<open>run_timers t\<close> lets time pass up to and including \<open>t\<close>. A call of the wrapper at
  time \<open>t\<close> comes after the timers due before \<open>t\<close> have run; \<open>calls\<close> is a sequence
  of calls given as (time, arguments) pairs.
\<close>

definition call_at :: "nat \<Rightarrow> 'a \<Rightarrow> 'a debounced \<Rightarrow> 'a debounced" where
  "call_at t args s =
     (let s = (if t = 0 then s else run_timers (t - 1) s)
      in executedFunction args (s\<lparr>clock := max (clock s) t\<rparr>))"

definition calls :: "(nat \<times> 'a) list \<Rightarrow> 'a debounced \<Rightarrow> 'a debounced" where
  "calls cs s = foldl (\<lambda>s c. call_at (fst c) (snd c) s) s cs"

text \<open>
  The wrapper is ready for a call at time \<open>t\<close>: the clock has not passed \<open>t\<close>, and
  either no timer is pending or the one pending timer is the one \<open>timeout\<close> names and
  is due after \<open>t\<close>.
\<close>

definition ready :: "nat \<Rightarrow> 'a debounced \<Rightarrow> bool" where
  "ready t s \<longleftrightarrow> clock s \<le> t \<and>
     (case timer_table s of
        [] \<Rightarrow> True
      | [e] \<Rightarrow> timeout s = Some (fst e) \<and> t < fst (snd e)
      | _ \<Rightarrow> False)"

subsection \<open>utils.formatBytes\<close>

text \<open>
  \<open>bytes\<close> ranges over the non-negative integers a double holds exactly. \<open>ilog k n\<close> is
  \<open>Math.floor(Math.log(n) / Math.log(k))\<close> in exact arithmetic. The quotient of the two
  double logarithms agrees with it except next to a power of 1024 so large that the
  logarithm of its neighbour rounds to the logarithm of the power itself (as at
  \<open>2 ^ 50 - 1\<close>, where the code computes 5 and \<open>ilog\<close> is 4); the byte counts used
  below, \<open>2 ^ 24\<close> and \<open>2 ^ 41\<close>, are far from that. Dividing by the power of two
  \<open>Math.pow(k, i)\<close> is exact, so the argument of \<open>toFixed\<close> is the rational \<open>p / q\<close>.
  \<open>toFixed\<close> is specified on the exact value: the integer \<open>n\<close> with \<open>n / 10 ^ f\<close> closest
  to it, the larger one on a tie, printed with \<open>f\<close> fractional digits; it throws a
  RangeError when \<open>f\<close> exceeds 100. \<open>parseFloat\<close> followed by the conversion back to a
  string (the \<open>+ ' '\<close>) prints the shortest decimal that reads back as the same double.
  Up to eleven decimals the string of \<open>toFixed\<close> has at most fifteen significant digits
  and the result is that string without the trailing zeros of its fraction, which is what
  \<open>parseFloat_toString\<close> computes; with more decimals the code can print fewer digits
  than \<open>parseFloat_toString\<close> keeps. The default of two decimals is the only value the
  file itself uses.
\<close>

function ilog :: "nat \<Rightarrow> nat \<Rightarrow> nat" where
  "ilog k n = (if k < 2 \<or> n < k then 0 else Suc (ilog k (n div k)))"
  by pat_completeness auto
termination
  by (relation "measure (\<lambda>(k, n). n)") auto

declare ilog.simps [simp del]

definition toFixed :: "nat \<Rightarrow> nat \<Rightarrow> nat \<Rightarrow> jsstring" where
  "toFixed p q f =
     (let n = (2 * p * 10 ^ f + q) div (2 * q);
          m = showNat n
      in if f = 0 then m
         else let m = replicate (f + 1 - length m) 0x30 @ m;
                  k = length m
              in take (k - f) m @ [0x2E] @ drop (k - f) m)"

definition parseFloat_toString :: "jsstring \<Rightarrow> jsstring" where
  "parseFloat_toString s =
     (let whole = takeWhile (\<lambda>c. c \<noteq> 0x2E) s;
          fraction = drop 1 (dropWhile (\<lambda>c. c \<noteq> 0x2E) s);
          fraction = rev (dropWhile (\<lambda>c. c = 0x30) (rev fraction))
      in if fraction = [] then whole else whole @ [0x2E] @ fraction)"

definition sizes :: "jsstring list" where
  "sizes = [js ''Bytes'', js ''KB'', js ''MB'', js ''GB'']"

definition formatBytes :: "nat \<Rightarrow> int \<Rightarrow> error + jsstring" where
  "formatBytes bytes decimals =
     (if bytes = 0 then Inr (js ''0 Bytes'')
      else
        let k = 1024;
            dm = (if decimals < 0 then 0 else decimals);
            i = ilog k bytes
        in if 100 < dm then Inl RangeError
           else Inr (parseFloat_toString (toFixed bytes (k ^ i) (nat dm)) @ js '' '' @
                     (if i < length sizes then sizes ! i else js ''undefined'')))"

subsection \<open>utils.validateImageFile\<close>

record js_file =
  file_type :: jsstring
  file_size :: nat

record validation =
  valid :: bool
  message :: jsstring

text \<open>
  \<open>None\<close> is the absent file (\<open>undefined\<close> or \<open>null\<close>); a File object is never falsy. The
  template literal of the size message calls \<open>formatBytes\<close>, whose exception would
  propagate.
\<close>

definition validateImageFile :: "js_file option \<Rightarrow> error + validation" where
  "validateImageFile f =
     (case f of
        None \<Rightarrow> Inr \<lparr> valid = False, message = js ''Nenhum arquivo selecionado'' \<rparr>
      | Some file \<Rightarrow>
          if file_type file \<notin> set (allowedImageTypes config) then
            Inr \<lparr> valid = False,
                  message = js (''Tipo de arquivo n'' @ [CHR 0xE3] @
                                ''o permitido. Use: JPG, PNG, GIF ou WEBP'') \<rparr>
          else if file_size file > maxFileSize config then
            (case formatBytes (maxFileSize config) 2 of
               Inl e \<Rightarrow> Inl e
             | Inr maximum \<Rightarrow>
                 Inr \<lparr> valid = False,
                       message = js (''Arquivo muito grande. M'' @ [CHR 0xE1] @ ''ximo: '')
                                 @ maximum \<rparr>)
          else Inr \<lparr> valid = True, message = js (''Arquivo v'' @ [CHR 0xE1] @ ''lido'') \<rparr>)"

subsection \<open>utils.escapeHtml\<close>

text \<open>
  \<open>text.replace(/[&<>"']/g, function(m) { return map[m]; })\<close>: every code unit of the
  class is replaced by what the replacer returns for it, the others are copied. A
  replacer that returned \<open>undefined\<close> would insert the string \<open>undefined\<close>.
\<close>

definition entityMap :: "(jschar \<times> jsstring) list" where
  "entityMap =
     [(0x26, js ''&amp;''), (0x3C, js ''&lt;''), (0x3E, js ''&gt;''),
      (0x22, js ''&quot;''), (0x27, js ''&#039;'')]"

definition htmlSpecial :: "jschar \<Rightarrow> bool" where
  "htmlSpecial c \<longleftrightarrow> c \<in> set [0x26, 0x3C, 0x3E, 0x22, 0x27]"

definition replacer :: "jschar \<Rightarrow> jsstring" where
  "replacer m = (case map_of entityMap m of Some e \<Rightarrow> e | None \<Rightarrow> js ''undefined'')"

fun escapeHtml :: "jsstring \<Rightarrow> jsstring" where
  "escapeHtml [] = []"
| "escapeHtml (c # cs) = (if htmlSpecial c then replacer c else [c]) @ escapeHtml cs"

subsection \<open>ui.showConfirmModal and window.showConfirmModal\<close>

text \<open>
  The host widget library is a black box with \<open>show()\<close>, \<open>hide()\<close> and the notifications
  \<open>shown.bs.modal\<close> and \<open>hidden.bs.modal\<close> sent once showing and hiding have finished.
  The element is built with the class \<open>modal fade\<close>, so showing and hiding are
  transitions, and throughout both the element is in the document with its listeners
  attached. The modal is \<open>Showing\<close> after \<open>show()\<close>, \<open>Shown\<close> once the library has
  finished showing it, \<open>Hiding\<close> after a \<open>hide()\<close> that the library accepts, and
  \<open>Detached\<close> once the \<open>hidden.bs.modal\<close> listener has removed it from the body. The
  library ignores \<open>hide()\<close> while a transition runs, so \<open>hide()\<close> acts only on a modal
  that is \<open>Shown\<close>. A callback argument is \<open>None\<close> when it is \<open>undefined\<close>; \<open>fired\<close>
  records the callbacks invoked, in order.
\<close>

datatype phase = Showing | Shown | Hiding | Detached

datatype 'cb invocation = OnConfirm 'cb | OnCancel 'cb

record 'cb modal =
  modal_title :: jsstring
  modal_body :: jsstring
  phase :: phase
  onConfirm :: "'cb option"
  onCancel :: "'cb option"
  fired :: "'cb invocation list"

definition showConfirmModal ::
  "jsstring \<Rightarrow> jsstring \<Rightarrow> 'cb option \<Rightarrow> 'cb option \<Rightarrow> 'cb modal" where
  "showConfirmModal title msg on_confirm on_cancel =
     \<lparr> modal_title = escapeHtml title, modal_body = escapeHtml msg, phase = Showing,
       onConfirm = on_confirm, onCancel = on_cancel, fired = [] \<rparr>"

definition window_showConfirmModal :: "jsstring \<Rightarrow> jsstring \<Rightarrow> 'cb option \<Rightarrow> 'cb modal" where
  "window_showConfirmModal title msg callback = showConfirmModal title msg callback None"

definition hide :: "'cb modal \<Rightarrow> 'cb modal" where
  "hide m = (if phase m = Shown then m\<lparr>phase := Hiding\<rparr> else m)"

text \<open>
  What the user and the library can do to the modal: click one of the two footer buttons,
  dismiss it another way (the close button, the backdrop, the escape key: the library
  calls \<open>hide()\<close>), and the library's notifications that showing and that hiding has
  finished. A detached element receives no clicks, and each notification comes only
  while its transition runs.
\<close>

datatype interaction =
  ClickConfirm | ClickCancel | Dismiss | ShownNotification | HiddenNotification

fun interact :: "interaction \<Rightarrow> 'cb modal \<Rightarrow> 'cb modal" where
  "interact ClickConfirm m =
     (if phase m = Detached then m
      else let m = hide m
           in (case onConfirm m of None \<Rightarrow> m
               | Some cb \<Rightarrow> m\<lparr>fired := fired m @ [OnConfirm cb]\<rparr>))"
| "interact ClickCancel m =
     (if phase m = Detached then m
      else let m = hide m
           in (case onCancel m of None \<Rightarrow> m
               | Some cb \<Rightarrow> m\<lparr>fired := fired m @ [OnCancel cb]\<rparr>))"
| "interact Dismiss m = (if phase m = Detached then m else hide m)"
| "interact ShownNotification m = (if phase m = Showing then m\<lparr>phase := Shown\<rparr> else m)"
| "interact HiddenNotification m = (if phase m = Hiding then m\<lparr>phase := Detached\<rparr> else m)"

definition interactions :: "interaction list \<Rightarrow> 'cb modal \<Rightarrow> 'cb modal" where
  "interactions es m = foldl (\<lambda>m e. interact e m) m es"

definition isClick :: "interaction \<Rightarrow> bool" where
  "isClick e \<longleftrightarrow> e = ClickConfirm \<or> e = ClickCancel"

subsection \<open>ui.setButtonLoading\<close>

text \<open>
  The content attributes of an element are a list of (name, value) pairs with no name
  twice. \<open>getAttribute\<close> of a missing attribute is \<open>null\<close>, here \<open>None\<close>;
  \<open>setAttribute\<close> replaces the value of a present attribute and appends a new one.
\<close>

type_synonym attributes = "(string \<times> jsstring) list"

definition getAttribute :: "attributes \<Rightarrow> string \<Rightarrow> jsstring option" where
  "getAttribute as name = map_of as name"

definition hasAttribute :: "attributes \<Rightarrow> string \<Rightarrow> bool" where
  "hasAttribute as name \<longleftrightarrow> map_of as name \<noteq> None"

fun setAttribute :: "string \<Rightarrow> jsstring \<Rightarrow> attributes \<Rightarrow> attributes" where
  "setAttribute name v [] = [(name, v)]"
| "setAttribute name v (a # as) =
     (if fst a = name then (name, v) # as else a # setAttribute name v as)"

definition removeAttribute :: "string \<Rightarrow> attributes \<Rightarrow> attributes" where
  "removeAttribute name as = filter (\<lambda>a. fst a \<noteq> name) as"

text \<open>
  A button: its markup as reading \<open>innerHTML\<close> returns it, its content attributes other
  than \<open>disabled\<close>, and the \<open>disabled\<close> property. Assigning to \<open>innerHTML\<close> makes the
  host parse the string, and reading it returns the host's serialisation of the parsed
  nodes, which need not be the string assigned. That round trip belongs to the host and
  is the parameter \<open>readBack\<close>.
\<close>

record button =
  innerHTML :: jsstring
  button_attributes :: attributes
  disabled :: bool

definition setButtonLoading ::
  "(jsstring \<Rightarrow> jsstring) \<Rightarrow> button \<Rightarrow> bool \<Rightarrow> jsstring \<Rightarrow> button" where
  "setButtonLoading readBack b loading loadingText =
     (if loading then
        b\<lparr> button_attributes :=
             setAttribute ''data-original-text'' (innerHTML b) (button_attributes b),
           innerHTML := readBack (js (''<span class='' @ [CHR 0x22] @
                                      ''spinner-border spinner-border-sm me-2'' @ [CHR 0x22] @
                                      ''></span>'') @ loadingText),
           disabled := True \<rparr>
      else
        let originalText = getAttribute (button_attributes b) ''data-original-text'';
            b = (if truthy originalText
                 then b\<lparr> innerHTML := readBack (the originalText),
                         button_attributes :=
                           removeAttribute ''data-original-text'' (button_attributes b) \<rparr>
                 else b)
        in b\<lparr> disabled := False \<rparr>)"

subsection \<open>forms.customValidations\<close>

text \<open>
  \<open>/^[a-zA-Z0-9_]+$/\<close>, \<open>/[a-zA-Z]/\<close> and \<open>/[0-9]/\<close>: a non-empty string of class
  members, and a string with some member of the class.
\<close>

definition isAsciiLetter :: "jschar \<Rightarrow> bool" where
  "isAsciiLetter c \<longleftrightarrow> (0x61 \<le> c \<and> c \<le> 0x7A) \<or> (0x41 \<le> c \<and> c \<le> 0x5A)"

definition isAsciiDigit :: "jschar \<Rightarrow> bool" where
  "isAsciiDigit c \<longleftrightarrow> 0x30 \<le> c \<and> c \<le> 0x39"

definition username :: "jsstring \<Rightarrow> validation" where
  "username v =
     \<lparr> valid = (v \<noteq> [] \<and> list_all (\<lambda>c. isAsciiLetter c \<or> isAsciiDigit c \<or> c = 0x5F) v),
       message = js (''Username deve conter apenas letras, n'' @ [CHR 0xFA] @
                     ''meros e underscore'') \<rparr>"

definition password :: "jsstring \<Rightarrow> validation" where
  "password v =
     (if length v < 6 then
        \<lparr> valid = False, message = js ''Senha deve ter pelo menos 6 caracteres'' \<rparr>
      else if \<not> list_ex isAsciiLetter v then
        \<lparr> valid = False, message = js ''Senha deve conter pelo menos uma letra'' \<rparr>
      else if \<not> list_ex isAsciiDigit v then
        \<lparr> valid = False,
          message = js (''Senha deve conter pelo menos um n'' @ [CHR 0xFA] @ ''mero'') \<rparr>
      else \<lparr> valid = True, message = [] \<rparr>)"

text \<open>
  \<open>this.customValidations[validationType]\<close> is a property read on an object literal: it
  finds the two own properties, and for the names that every object inherits from
  \<open>Object.prototype\<close> it finds the inherited member, which is not a validator. The code
  calls what it found with the value as the only argument and no receiver.
  \<open>constructor\<close>, \<open>isPrototypeOf\<close> and \<open>toString\<close> then return a value (a String
  object, \<open>false\<close>, the string \<open>[object Undefined]\<close>) that has neither \<open>valid\<close> nor
  \<open>message\<close>: the field is invalid and the message is \<open>undefined\<close>, which the feedback
  element shows as the empty text. The other members throw a TypeError, for want of a
  receiver or, for \<open>__proto__\<close>, of a function. Any other name reads \<open>undefined\<close>.
\<close>

datatype 'a property = Own 'a | InheritedReturning | InheritedThrowing | Undefined

definition objectPrototypeNames :: "jsstring list" where
  "objectPrototypeNames =
     [js ''constructor'', js ''hasOwnProperty'', js ''isPrototypeOf'',
      js ''propertyIsEnumerable'', js ''toLocaleString'', js ''toString'', js ''valueOf'',
      js ''__proto__'', js ''__defineGetter__'', js ''__defineSetter__'',
      js ''__lookupGetter__'', js ''__lookupSetter__'']"

definition customValidations :: "jsstring \<Rightarrow> (jsstring \<Rightarrow> validation) property" where
  "customValidations name =
     (if name = js ''username'' then Own username
      else if name = js ''password'' then Own password
      else if name \<in> set [js ''constructor'', js ''isPrototypeOf'', js ''toString'']
      then InheritedReturning
      else if name \<in> set objectPrototypeNames then InheritedThrowing
      else Undefined)"

subsection \<open>forms.validateField and forms.updateFieldValidationState\<close>

text \<open>
  A form control: its \<open>value\<close> and \<open>type\<close> properties, its content attributes by name, its
  class list, and the \<open>.invalid-feedback\<close> element found under its parent, if there is one.
\<close>

record feedback_element =
  textContent :: jsstring
  style_display :: jsstring

record field =
  field_value :: jsstring
  field_type :: jsstring
  field_attributes :: attributes
  classList :: "string list"
  feedback :: "feedback_element option"

definition classList_add :: "string \<Rightarrow> string list \<Rightarrow> string list" where
  "classList_add c cs = (if c \<in> set cs then cs else cs @ [c])"

definition classList_remove :: "string \<Rightarrow> string list \<Rightarrow> string list" where
  "classList_remove c cs = filter (\<lambda>x. x \<noteq> c) cs"

definition createFeedbackElement :: feedback_element where
  "createFeedbackElement = \<lparr> textContent = [], style_display = [] \<rparr>"

definition updateFieldValidationState :: "field \<Rightarrow> bool \<Rightarrow> jsstring \<Rightarrow> field" where
  "updateFieldValidationState f isValid msg =
     (let feedbackElement =
            (case feedback f of Some e \<Rightarrow> e | None \<Rightarrow> createFeedbackElement)
      in if isValid then
           f\<lparr> classList := classList_add ''is-valid'' (classList_remove ''is-invalid'' (classList f)),
              feedback := Some (feedbackElement\<lparr> textContent := [], style_display := js ''none'' \<rparr>) \<rparr>
         else
           f\<lparr> classList := classList_add ''is-invalid'' (classList_remove ''is-valid'' (classList f)),
              feedback := Some (feedbackElement\<lparr> textContent := msg, style_display := js ''block'' \<rparr>) \<rparr>)"

text \<open>
  \<open>/^[^\s@]+@[^\s@]+\.[^\s@]+$/\<close>: a non-empty run of the class, an at sign, and a rest
  of class members with a full stop that is neither its first nor its last code unit.
\<close>

definition emailChar :: "jschar \<Rightarrow> bool" where
  "emailChar c \<longleftrightarrow> \<not> isWhiteSpace c \<and> c \<noteq> 0x40"

definition emailRegex :: "jsstring \<Rightarrow> bool" where
  "emailRegex v =
     (let name = takeWhile emailChar v; rest = dropWhile emailChar v
      in name \<noteq> [] \<and>
         (case rest of [] \<Rightarrow> False
          | c # domain \<Rightarrow>
              c = 0x40 \<and> list_all emailChar domain \<and> 0x2E \<in> set (butlast (tl domain))))"

definition messageRequired :: jsstring where
  "messageRequired = js (''Este campo '' @ [CHR 0xE9] @ '' obrigat'' @ [CHR 0xF3] @ ''rio'')"

definition messageEmail :: jsstring where
  "messageEmail = js (''Email inv'' @ [CHR 0xE1] @ ''lido'')"

definition messageMinLength :: "jsstring \<Rightarrow> jsstring" where
  "messageMinLength minLength = js (''M'' @ [CHR 0xED] @ ''nimo '') @ minLength @ js '' caracteres''"

definition messageMaxLength :: "jsstring \<Rightarrow> jsstring" where
  "messageMaxLength maxLength = js (''M'' @ [CHR 0xE1] @ ''ximo '') @ maxLength @ js '' caracteres''"

text \<open>A comparison with \<open>NaN\<close> is false.\<close>

definition less_number :: "int \<Rightarrow> int option \<Rightarrow> bool" where
  "less_number a b \<longleftrightarrow> (case b of None \<Rightarrow> False | Some n \<Rightarrow> a < n)"

definition greater_number :: "int \<Rightarrow> int option \<Rightarrow> bool" where
  "greater_number a b \<longleftrightarrow> (case b of None \<Rightarrow> False | Some n \<Rightarrow> a > n)"

definition validateField :: "field \<Rightarrow> error + bool \<times> field" where
  "validateField f =
     (let v = trim (field_value f);
          (isValid, msg) = (True, []);
          (isValid, msg) =
            (if hasAttribute (field_attributes f) ''required'' \<and> v = [] then (False, messageRequired)
             else (isValid, msg));
          (isValid, msg) =
            (if field_type f = js ''email'' \<and> v \<noteq> [] \<and> \<not> emailRegex v
             then (False, messageEmail) else (isValid, msg));
          minLength = getAttribute (field_attributes f) ''minlength'';
          (isValid, msg) =
            (if truthy minLength \<and> length v > 0 \<and>
                less_number (int (length v)) (parseInt (the minLength))
             then (False, messageMinLength (the minLength)) else (isValid, msg));
          maxLength = getAttribute (field_attributes f) ''maxlength'';
          (isValid, msg) =
            (if truthy maxLength \<and> greater_number (int (length v)) (parseInt (the maxLength))
             then (False, messageMaxLength (the maxLength)) else (isValid, msg))
      in if hasAttribute (field_attributes f) ''data-validate'' then
           (case customValidations (the (getAttribute (field_attributes f) ''data-validate'')) of
              Own customValidation \<Rightarrow>
                (let result = customValidation v;
                     (isValid, msg) =
                       (if \<not> valid result then (False, message result) else (isValid, msg))
                 in Inr (isValid, updateFieldValidationState f isValid msg))
            | InheritedReturning \<Rightarrow> Inr (False, updateFieldValidationState f False [])
            | InheritedThrowing \<Rightarrow> Inl TypeError
            | Undefined \<Rightarrow> Inr (isValid, updateFieldValidationState f isValid msg))
         else Inr (isValid, updateFieldValidationState f isValid msg))"

section \<open>Properties\<close>

subsection \<open>escapeHtml\<close>

lemma replacer_simps:
  "replacer 0x26 = js ''&amp;''" "replacer 0x3C = js ''&lt;''" "replacer 0x3E = js ''&gt;''"
  "replacer 0x22 = js ''&quot;''" "replacer 0x27 = js ''&#039;''"
  by (simp_all add: replacer_def entityMap_def)

lemma htmlSpecial_iff:
  "htmlSpecial c \<longleftrightarrow> c = 0x26 \<or> c = 0x3C \<or> c = 0x3E \<or> c = 0x22 \<or> c = 0x27"
  by (simp add: htmlSpecial_def)

lemma escapeHtml_Cons_cases:
  "escapeHtml (c # cs) =
     (if c = 0x26 then js ''&amp;'' else if c = 0x3C then js ''&lt;''
      else if c = 0x3E then js ''&gt;'' else if c = 0x22 then js ''&quot;''
      else if c = 0x27 then js ''&#039;'' else [c]) @ escapeHtml cs"
  by (auto simp: htmlSpecial_iff replacer_simps)

lemma escapeHtml_append: "escapeHtml (xs @ ys) = escapeHtml xs @ escapeHtml ys"
  by (induction xs) simp_all

lemma escapeHtml_no_markup: "set (escapeHtml s) \<inter> {0x3C, 0x3E, 0x22, 0x27} = {}"
proof (induction s)
  case Nil
  show ?case by simp
next
  case (Cons c cs)
  have "set (if htmlSpecial c then replacer c else [c]) \<inter> {0x3C, 0x3E, 0x22, 0x27} = {}"
    by (auto simp: htmlSpecial_iff replacer_simps js_def)
  with Cons show ?case by (simp add: Int_Un_distrib2)
qed

lemma entity_amp_first:
  assumes "i < length (if htmlSpecial c then replacer c else [c])"
    and "(if htmlSpecial c then replacer c else [c]) ! i = 0x26"
  shows "i = 0 \<and> htmlSpecial c"
  using assms
  by (auto simp: htmlSpecial_iff replacer_simps js_def nth_Cons' less_Suc_eq split: if_splits)

lemma escapeHtml_amp:
  "i < length (escapeHtml s) \<Longrightarrow> escapeHtml s ! i = 0x26 \<Longrightarrow>
     \<exists>e \<in> snd ` set entityMap. take (length e) (drop i (escapeHtml s)) = e"
proof (induction s arbitrary: i)
  case Nil
  then show ?case by simp
next
  case (Cons c cs)
  let ?p = "if htmlSpecial c then replacer c else [c]"
  show ?case
  proof (cases "i < length ?p")
    case True
    with Cons.prems have "?p ! i = 0x26" by (simp add: nth_append)
    with True have i0: "i = 0" and sp: "htmlSpecial c" using entity_amp_first by blast+
    from sp have "replacer c \<in> snd ` set entityMap"
      by (auto simp: htmlSpecial_iff replacer_simps entityMap_def)
    moreover have "take (length (replacer c)) (drop i (escapeHtml (c # cs))) = replacer c"
      using i0 sp by simp
    ultimately show ?thesis by blast
  next
    case False
    with Cons.prems have a: "i - length ?p < length (escapeHtml cs)"
      and b: "escapeHtml cs ! (i - length ?p) = 0x26"
      by (auto simp: nth_append)
    from Cons.IH [OF a b] obtain e where
      e: "e \<in> snd ` set entityMap" "take (length e) (drop (i - length ?p) (escapeHtml cs)) = e"
      by blast
    have "drop i (escapeHtml (c # cs)) = drop (i - length ?p) (escapeHtml cs)"
      using False by simp
    with e show ?thesis by metis
  qed
qed

text \<open>
  Claim C2, as amended. The claim says that the result of \<open>escapeHtml\<close> holds no literal
  ampersand, less-than, greater-than, double quote or apostrophe. The entities themselves
  start with an ampersand, so that part fails for the ampersand. What holds for every
  string: the result holds no literal less-than, greater-than, double quote or apostrophe;
  it is the input with each of the five characters replaced by its entity and every other
  code unit kept; and every ampersand of the result is the first code unit of one of the
  five entities.
\<close>

theorem escapeHtml_entities:
  "set (escapeHtml s) \<inter> {0x3C, 0x3E, 0x22, 0x27} = {} \<and>
   escapeHtml s =
     concat (map (\<lambda>c. if c = 0x26 then js ''&amp;'' else if c = 0x3C then js ''&lt;''
                       else if c = 0x3E then js ''&gt;'' else if c = 0x22 then js ''&quot;''
                       else if c = 0x27 then js ''&#039;'' else [c]) s) \<and>
   (\<forall>i < length (escapeHtml s). escapeHtml s ! i = 0x26 \<longrightarrow>
      (\<exists>e \<in> snd ` set entityMap. take (length e) (drop i (escapeHtml s)) = e))"
proof (intro conjI allI impI)
  show "set (escapeHtml s) \<inter> {0x3C, 0x3E, 0x22, 0x27} = {}" by (rule escapeHtml_no_markup)
next
  show "escapeHtml s =
     concat (map (\<lambda>c. if c = 0x26 then js ''&amp;'' else if c = 0x3C then js ''&lt;''
                       else if c = 0x3E then js ''&gt;'' else if c = 0x22 then js ''&quot;''
                       else if c = 0x27 then js ''&#039;'' else [c]) s)"
    by (induction s) (simp_all only: escapeHtml.simps(1) escapeHtml_Cons_cases list.map concat.simps)
next
  fix i assume "i < length (escapeHtml s)" "escapeHtml s ! i = 0x26"
  then show "\<exists>e \<in> snd ` set entityMap. take (length e) (drop i (escapeHtml s)) = e"
    by (rule escapeHtml_amp)
qed

theorem escapeHtml_entities_witness:
  "escapeHtml (js ''a<b'') = js ''a&lt;b'' \<and> 1 < length (escapeHtml (js ''a<b'')) \<and>
   escapeHtml (js ''a<b'') ! 1 = 0x26 \<and>
   (\<exists>e \<in> snd ` set entityMap. take (length e) (drop 1 (escapeHtml (js ''a<b''))) = e)"
proof -
  have v: "escapeHtml (js ''a<b'') = js ''a&lt;b''"
    by (simp add: js_def htmlSpecial_def replacer_def entityMap_def)
  have l: "1 < length (escapeHtml (js ''a<b''))" by (simp add: v) (simp add: js_def)
  have a: "escapeHtml (js ''a<b'') ! 1 = 0x26" by (simp add: v) (simp add: js_def)
  from escapeHtml_entities [of "js ''a<b''"] l a
  have "\<exists>e \<in> snd ` set entityMap. take (length e) (drop 1 (escapeHtml (js ''a<b''))) = e"
    by blast
  with v l a show ?thesis by blast
qed

text \<open>
  The claim as stated fails at the one-character string \<open><\<close>: its escape \<open>&lt;\<close>
  holds a literal ampersand.
\<close>

theorem escapeHtml_ampersand_counterexample:
  "0x26 \<in> set (escapeHtml (js ''<''))"
  by (simp add: js_def htmlSpecial_def replacer_def entityMap_def)

subsection \<open>formatBytes\<close>

lemma ilog_16MB: "ilog 1024 16777216 = 2"
  by (simp add: ilog.simps)

lemma showNat_1600: "showNat 1600 = js ''1600''"
  by (simp add: showNat.simps js_def)

lemma toFixed_16MB: "toFixed 16777216 1048576 2 = js ''16.00''"
  by (simp add: toFixed_def showNat_1600 Let_def) (simp add: js_def)

lemma parseFloat_toString_16: "parseFloat_toString (js ''16.00'') = js ''16''"
  by (simp add: parseFloat_toString_def js_def Let_def)

lemma formatBytes_16MB: "formatBytes 16777216 2 = Inr (js ''16 MB'')"
  by (simp add: formatBytes_def ilog_16MB toFixed_16MB parseFloat_toString_16 sizes_def Let_def)
     (simp add: js_def)

lemma ilog_2TB: "ilog 1024 2199023255552 = 4"
  by (simp add: ilog.simps)

lemma showNat_200: "showNat 200 = js ''200''"
  by (simp add: showNat.simps js_def)

lemma toFixed_2TB: "toFixed 2199023255552 1099511627776 2 = js ''2.00''"
  by (simp add: toFixed_def showNat_200 Let_def) (simp add: js_def)

lemma parseFloat_toString_2: "parseFloat_toString (js ''2.00'') = js ''2''"
  by (simp add: parseFloat_toString_def js_def Let_def)

text \<open>
  \<open>ilog k n\<close> is the floor of the logarithm of \<open>n\<close> to the base \<open>k\<close>, and the unit
  read from the table is one of its four entries exactly below \<open>1024 ^ 4\<close> bytes.
\<close>

lemma ilog_bounds: "2 \<le> k \<Longrightarrow> 0 < n \<Longrightarrow> k ^ ilog k n \<le> n \<and> n < k ^ Suc (ilog k n)"
proof (induction k n rule: ilog.induct)
  case (1 k n)
  show ?case
  proof (cases "n < k")
    case True
    with "1.prems" show ?thesis by (simp add: ilog.simps [of k n])
  next
    case False
    with "1.prems" have q: "0 < n div k" by (simp add: div_greater_zero_iff)
    from False "1.prems" have s: "ilog k n = Suc (ilog k (n div k))"
      by (simp add: ilog.simps [of k n])
    from "1.IH" False "1.prems" q
    have ih: "k ^ ilog k (n div k) \<le> n div k" "n div k < k ^ Suc (ilog k (n div k))" by auto
    have "k * k ^ ilog k (n div k) \<le> k * (n div k)" using ih(1) by simp
    also have "\<dots> \<le> n" by simp
    finally have lo: "k ^ ilog k n \<le> n" by (simp add: s)
    have "n < k * Suc (n div k)" using "1.prems"(1)
      by (metis dividend_less_times_div mult_Suc_right less_le_trans zero_less_numeral)
    also have "\<dots> \<le> k * k ^ Suc (ilog k (n div k))"
      using ih(2) by (intro mult_le_mono2) (simp only: Suc_le_eq)
    finally have "n < k ^ Suc (ilog k n)" by (simp add: s)
    with lo show ?thesis by simp
  qed
qed

lemma ilog_less_iff: "2 \<le> k \<Longrightarrow> 0 < n \<Longrightarrow> ilog k n < m \<longleftrightarrow> n < k ^ m"
proof
  assume k: "2 \<le> k" and n: "0 < n" and l: "ilog k n < m"
  then have "Suc (ilog k n) \<le> m" by simp
  then have "k ^ Suc (ilog k n) \<le> k ^ m" using k by (intro power_increasing) auto
  with ilog_bounds [OF k n] show "n < k ^ m" by linarith
next
  assume k: "2 \<le> k" and n: "0 < n" and l: "n < k ^ m"
  show "ilog k n < m"
  proof (rule ccontr)
    assume "\<not> ilog k n < m"
    then have "m \<le> ilog k n" by simp
    then have "k ^ m \<le> k ^ ilog k n" using k by (intro power_increasing) auto
    with ilog_bounds [OF k n] l show False by linarith
  qed
qed

lemma formatBytes_unit:
  assumes "0 < b"
  shows "\<exists>p. formatBytes b 2 =
           Inr (p @ js '' '' @ (if b < 1024 ^ 4 then sizes ! ilog 1024 b else js ''undefined'')) \<and>
         (b < 1024 ^ 4 \<longrightarrow> ilog 1024 b < length sizes)"
proof -
  have "ilog 1024 b < 4 \<longleftrightarrow> b < 1024 ^ 4" using assms by (intro ilog_less_iff) simp_all
  then show ?thesis using assms by (auto simp: formatBytes_def Let_def sizes_def)
qed

text \<open>
  Claim C4. The claim promises, for every non-negative integer byte count, a unit from
  Bytes, KB, MB and GB. The table \<open>sizes\<close> has four entries and the index is not
  bounded: from \<open>1024 ^ 4\<close> bytes on the read \<open>sizes[i]\<close> is out of range and the
  result ends in the text \<open>undefined\<close>. At two tebibytes the code returns
  \<open>2 undefined\<close>; at zero it returns \<open>0 Bytes\<close>, as the claim says.
\<close>

theorem formatBytes_terabytes:
  "formatBytes 2199023255552 2 = Inr (js ''2 undefined'') \<and> formatBytes 0 2 = Inr (js ''0 Bytes'')"
  by (simp add: formatBytes_def ilog_2TB toFixed_2TB parseFloat_toString_2 sizes_def Let_def)
     (simp add: js_def)

subsection \<open>validateImageFile\<close>

lemma config_values:
  "maxFileSize config = 16777216"
  "set (allowedImageTypes config) =
     {js ''image/jpeg'', js ''image/jpg'', js ''image/png'', js ''image/gif'', js ''image/webp''}"
  by (simp_all add: config_def)

text \<open>
  Claim C3. \<open>validateImageFile\<close> always returns a result, and the result is valid exactly
  for a present file whose declared type is one of \<open>image/jpeg\<close>, \<open>image/jpg\<close>,
  \<open>image/png\<close>, \<open>image/gif\<close>, \<open>image/webp\<close> and whose size is at most 16 MB
  (\<open>16 * 1024 * 1024\<close> bytes). A file of another type gets the type message, a file of
  an allowed type above the maximum gets the size message. The function reads only its
  argument and the configuration and assigns nothing, which is why its model is a function
  of the file alone.
\<close>

theorem validateImageFile_accepts_exactly:
  "(\<exists>r. validateImageFile f = Inr r \<and>
      (valid r \<longleftrightarrow>
         (\<exists>file. f = Some file \<and>
            file_type file \<in> {js ''image/jpeg'', js ''image/jpg'', js ''image/png'',
                               js ''image/gif'', js ''image/webp''} \<and>
            file_size file \<le> 16 * 1024 * 1024))) \<and>
   (\<forall>file. f = Some file \<and>
      file_type file \<notin> {js ''image/jpeg'', js ''image/jpg'', js ''image/png'',
                         js ''image/gif'', js ''image/webp''} \<longrightarrow>
      validateImageFile f =
        Inr \<lparr> valid = False,
              message = js (''Tipo de arquivo n'' @ [CHR 0xE3] @
                            ''o permitido. Use: JPG, PNG, GIF ou WEBP'') \<rparr>) \<and>
   (\<forall>file. f = Some file \<and>
      file_type file \<in> {js ''image/jpeg'', js ''image/jpg'', js ''image/png'',
                         js ''image/gif'', js ''image/webp''} \<and>
      16 * 1024 * 1024 < file_size file \<longrightarrow>
      validateImageFile f =
        Inr \<lparr> valid = False,
              message = js (''Arquivo muito grande. M'' @ [CHR 0xE1] @ ''ximo: 16 MB'') \<rparr>)"
proof (cases f)
  case None
  then show ?thesis by (simp add: validateImageFile_def)
next
  case (Some x)
  show ?thesis
    using Some
    by (auto simp: validateImageFile_def config_values formatBytes_16MB) (simp_all add: js_def)
qed

text \<open>
  The three files of the claim: a PNG of 10 MB passes, a PNG of 20 MB gets the size
  message, a text file of 1 KB gets the type message.
\<close>

theorem validateImageFile_accepts_exactly_witness:
  "(\<exists>r. validateImageFile (Some \<lparr> file_type = js ''image/png'', file_size = 10 * 1024 * 1024 \<rparr>) = Inr r
        \<and> valid r) \<and>
   validateImageFile (Some \<lparr> file_type = js ''image/png'', file_size = 20 * 1024 * 1024 \<rparr>) =
     Inr \<lparr> valid = False,
           message = js (''Arquivo muito grande. M'' @ [CHR 0xE1] @ ''ximo: 16 MB'') \<rparr> \<and>
   validateImageFile (Some \<lparr> file_type = js ''text/plain'', file_size = 1024 \<rparr>) =
     Inr \<lparr> valid = False,
           message = js (''Tipo de arquivo n'' @ [CHR 0xE3] @
                         ''o permitido. Use: JPG, PNG, GIF ou WEBP'') \<rparr>"
proof (intro conjI)
  show "\<exists>r. validateImageFile (Some \<lparr> file_type = js ''image/png'', file_size = 10 * 1024 * 1024 \<rparr>) = Inr r
        \<and> valid r"
    using validateImageFile_accepts_exactly
            [of "Some \<lparr> file_type = js ''image/png'', file_size = 10 * 1024 * 1024 \<rparr>"]
    by (simp add: js_def)
next
  show "validateImageFile (Some \<lparr> file_type = js ''image/png'', file_size = 20 * 1024 * 1024 \<rparr>) =
     Inr \<lparr> valid = False,
           message = js (''Arquivo muito grande. M'' @ [CHR 0xE1] @ ''ximo: 16 MB'') \<rparr>"
    using validateImageFile_accepts_exactly
            [of "Some \<lparr> file_type = js ''image/png'', file_size = 20 * 1024 * 1024 \<rparr>"]
    by (simp add: js_def)
next
  show "validateImageFile (Some \<lparr> file_type = js ''text/plain'', file_size = 1024 \<rparr>) =
     Inr \<lparr> valid = False,
           message = js (''Tipo de arquivo n'' @ [CHR 0xE3] @
                         ''o permitido. Use: JPG, PNG, GIF ou WEBP'') \<rparr>"
    using validateImageFile_accepts_exactly
            [of "Some \<lparr> file_type = js ''text/plain'', file_size = 1024 \<rparr>"]
    by (simp add: js_def)
qed

subsection \<open>customValidations.password\<close>

lemma list_ex_letter:
  "list_ex isAsciiLetter v \<longleftrightarrow> (\<exists>c \<in> set v. (0x41 \<le> c \<and> c \<le> 0x5A) \<or> (0x61 \<le> c \<and> c \<le> 0x7A))"
  by (auto simp: list_ex_iff isAsciiLetter_def)

lemma list_ex_digit:
  "list_ex isAsciiDigit v \<longleftrightarrow> (\<exists>c \<in> set v. 0x30 \<le> c \<and> c \<le> 0x39)"
  by (auto simp: list_ex_iff isAsciiDigit_def)

text \<open>
  Claim C5. The password validator checks three rules in order, and the first that fails
  supplies the message: fewer than six code units; no ASCII letter; no digit. A value is
  valid exactly when it has at least six code units, an ASCII letter and a digit.
\<close>

theorem password_rules:
  "(length v < 6 \<longrightarrow>
      password v = \<lparr> valid = False, message = js ''Senha deve ter pelo menos 6 caracteres'' \<rparr>) \<and>
   (6 \<le> length v \<and> \<not> (\<exists>c \<in> set v. (0x41 \<le> c \<and> c \<le> 0x5A) \<or> (0x61 \<le> c \<and> c \<le> 0x7A)) \<longrightarrow>
      password v = \<lparr> valid = False, message = js ''Senha deve conter pelo menos uma letra'' \<rparr>) \<and>
   (6 \<le> length v \<and> (\<exists>c \<in> set v. (0x41 \<le> c \<and> c \<le> 0x5A) \<or> (0x61 \<le> c \<and> c \<le> 0x7A)) \<and>
      \<not> (\<exists>c \<in> set v. 0x30 \<le> c \<and> c \<le> 0x39) \<longrightarrow>
      password v = \<lparr> valid = False,
                     message = js (''Senha deve conter pelo menos um n'' @ [CHR 0xFA] @ ''mero'') \<rparr>) \<and>
   (6 \<le> length v \<and> (\<exists>c \<in> set v. (0x41 \<le> c \<and> c \<le> 0x5A) \<or> (0x61 \<le> c \<and> c \<le> 0x7A)) \<and>
      (\<exists>c \<in> set v. 0x30 \<le> c \<and> c \<le> 0x39) \<longrightarrow>
      password v = \<lparr> valid = True, message = [] \<rparr>) \<and>
   (valid (password v) \<longleftrightarrow>
      6 \<le> length v \<and> (\<exists>c \<in> set v. (0x41 \<le> c \<and> c \<le> 0x5A) \<or> (0x61 \<le> c \<and> c \<le> 0x7A)) \<and>
      (\<exists>c \<in> set v. 0x30 \<le> c \<and> c \<le> 0x39))"
  unfolding password_def list_ex_letter list_ex_digit by simp

text \<open>
  The values of the claim: \<open>abc\<close> is too short, \<open>abcdef\<close> has no digit, \<open>abc123\<close>
  passes; and \<open>123456\<close> has no letter.
\<close>

theorem password_rules_witness:
  "password (js ''abc'') =
     \<lparr> valid = False, message = js ''Senha deve ter pelo menos 6 caracteres'' \<rparr> \<and>
   password (js ''123456'') =
     \<lparr> valid = False, message = js ''Senha deve conter pelo menos uma letra'' \<rparr> \<and>
   password (js ''abcdef'') =
     \<lparr> valid = False,
       message = js (''Senha deve conter pelo menos um n'' @ [CHR 0xFA] @ ''mero'') \<rparr> \<and>
   password (js ''abc123'') = \<lparr> valid = True, message = [] \<rparr>"
proof (intro conjI)
  show "password (js ''abc'') =
     \<lparr> valid = False, message = js ''Senha deve ter pelo menos 6 caracteres'' \<rparr>"
    using password_rules [of "js ''abc''"] by (simp add: js_def)
next
  show "password (js ''123456'') =
     \<lparr> valid = False, message = js ''Senha deve conter pelo menos uma letra'' \<rparr>"
    using password_rules [of "js ''123456''"] by (simp add: js_def)
next
  show "password (js ''abcdef'') =
     \<lparr> valid = False,
       message = js (''Senha deve conter pelo menos um n'' @ [CHR 0xFA] @ ''mero'') \<rparr>"
    using password_rules [of "js ''abcdef''"] by (simp add: js_def)
next
  show "password (js ''abc123'') = \<lparr> valid = True, message = [] \<rparr>"
    using password_rules [of "js ''abc123''"] by (simp add: js_def)
qed

subsection \<open>setButtonLoading\<close>

text \<open>
  Claim C6, as amended. The claim says that leaving the loading state on a button with no
  stashed markup changes nothing. The assignment \<open>button.disabled = false\<close> is outside
  the test of the stashed attribute, so the call always enables the button. What holds:
  without the attribute \<open>data-original-text\<close> the markup and the attributes are kept
  and the button is enabled; the call changes nothing exactly when the button was not
  disabled.
\<close>

theorem setButtonLoading_restore_without_stash:
  "getAttribute (button_attributes b) ''data-original-text'' = None \<Longrightarrow>
     setButtonLoading readBack b False loadingText = b\<lparr> disabled := False \<rparr> \<and>
     (setButtonLoading readBack b False loadingText = b \<longleftrightarrow> \<not> disabled b)"
  by (cases b) (auto simp: setButtonLoading_def truthy_def)

theorem setButtonLoading_restore_without_stash_witness:
  "getAttribute (button_attributes \<lparr> innerHTML = js ''Salvar'', button_attributes = [], disabled = True \<rparr>)
     ''data-original-text'' = None \<and>
   setButtonLoading id \<lparr> innerHTML = js ''Salvar'', button_attributes = [], disabled = True \<rparr> False
     (js ''Carregando...'') =
     \<lparr> innerHTML = js ''Salvar'', button_attributes = [], disabled = False \<rparr>"
proof -
  have h: "getAttribute (button_attributes \<lparr> innerHTML = js ''Salvar'', button_attributes = [], disabled = True \<rparr>)
     ''data-original-text'' = None"
    by (simp add: getAttribute_def)
  from setButtonLoading_restore_without_stash [OF h, of id "js ''Carregando...''"] h
  show ?thesis by simp
qed

text \<open>
  The claim as stated fails on a disabled button that was never loading: the call enables
  it.
\<close>

theorem setButtonLoading_enables_counterexample:
  "getAttribute (button_attributes \<lparr> innerHTML = js ''Salvar'', button_attributes = [], disabled = True \<rparr>)
     ''data-original-text'' = None \<and>
   setButtonLoading id \<lparr> innerHTML = js ''Salvar'', button_attributes = [], disabled = True \<rparr> False
     (js ''Carregando...'') \<noteq>
     \<lparr> innerHTML = js ''Salvar'', button_attributes = [], disabled = True \<rparr>"
  by (simp add: setButtonLoading_def getAttribute_def truthy_def)

subsection \<open>debounce\<close>

lemma run_timers_idle: "timer_table s = [] \<Longrightarrow> run_timers t s = s\<lparr>clock := max (clock s) t\<rparr>"
  by (subst run_timers.simps) (simp add: next_due_def)

lemma run_timers_not_due:
  "timer_table s = [(h, d, a)] \<Longrightarrow> t < d \<Longrightarrow> run_timers t s = s\<lparr>clock := max (clock s) t\<rparr>"
  by (subst run_timers.simps) (simp add: next_due_def)

lemma run_timers_due:
  assumes "timer_table s = [(h, d, a)]" "timeout s = Some h" "d \<le> t" "clock s \<le> d"
  shows "run_timers t s = s\<lparr>clock := t, timer_table := [], invocations := invocations s @ [(d, a)]\<rparr>"
proof -
  let ?s1 = "later a (s\<lparr>clock := max (clock s) d, timer_table := []\<rparr>)"
  have "run_timers t s = run_timers t ?s1"
    using assms by (subst run_timers.simps) (simp add: next_due_def)
  moreover have s1: "?s1 = s\<lparr>clock := d, timer_table := [], invocations := invocations s @ [(d, a)]\<rparr>"
    using assms by (simp add: later_def clearTimeout_def max_def)
  moreover have "run_timers t (s\<lparr>clock := d, timer_table := [], invocations := invocations s @ [(d, a)]\<rparr>)
      = s\<lparr>clock := t, timer_table := [], invocations := invocations s @ [(d, a)]\<rparr>"
    using assms by (simp add: run_timers_idle max_def)
  ultimately show ?thesis by simp
qed



lemma run_timers_ready:
  assumes "ready t s" and "u \<le> t"
  shows "run_timers u s = s\<lparr>clock := max (clock s) u\<rparr>"
proof -
  from assms(1) consider "timer_table s = []"
    | h d b where "timer_table s = [(h, d, b)]" "timeout s = Some h" "t < d"
    by (auto simp: ready_def split: list.splits)
  then show ?thesis
  proof cases
    case 1
    then show ?thesis by (rule run_timers_idle)
  next
    case 2
    from 2(3) assms(2) have "u < d" by simp
    with 2(1) show ?thesis by (rule run_timers_not_due)
  qed
qed

lemma call_at_ready:
  assumes "ready t s" and "wait_ms s = wait"
  shows "call_at t a s =
           s\<lparr>clock := t, timer_table := [(next_handle s, t + wait, a)],
             next_handle := Suc (next_handle s), timeout := Some (next_handle s)\<rparr>"
proof -
  from assms have c: "clock s \<le> t" by (simp add: ready_def)
  have adv: "(if t = 0 then s else run_timers (t - 1) s)\<lparr>clock :=
               max (clock (if t = 0 then s else run_timers (t - 1) s)) t\<rparr> = s\<lparr>clock := t\<rparr>"
  proof (cases "t = 0")
    case True
    with c show ?thesis by simp
  next
    case False
    have "run_timers (t - 1) s = s\<lparr>clock := max (clock s) (t - 1)\<rparr>"
      using assms(1) by (rule run_timers_ready) simp
    with False c show ?thesis by (simp add: max_def)
  qed
  have ex: "executedFunction a (s\<lparr>clock := t\<rparr>) =
           s\<lparr>clock := t, timer_table := [(next_handle s, t + wait, a)],
             next_handle := Suc (next_handle s), timeout := Some (next_handle s)\<rparr>"
  proof -
    from assms(1) consider "timer_table s = []"
      | h d b where "timer_table s = [(h, d, b)]" "timeout s = Some h" "t < d"
      by (auto simp: ready_def split: list.splits)
    then show ?thesis
    proof cases
      case 1
      with assms(2) show ?thesis
        by (simp add: executedFunction_def clearTimeout_def setTimeout_def split: option.splits)
    next
      case 2
      with assms(2) show ?thesis
        by (simp add: executedFunction_def clearTimeout_def setTimeout_def)
    qed
  qed
  show ?thesis unfolding call_at_def Let_def adv by (rule ex)
qed

lemma calls_Cons: "calls (c # cs) s = calls cs (call_at (fst c) (snd c) s)"
  by (simp add: calls_def)

lemma burst_end:
  assumes "ready (fst c) s" and "wait_ms s = wait"
  shows "run_timers T (call_at (fst c) (snd c) s) =
     (if fst c + wait \<le> T
      then s\<lparr>clock := T, timer_table := [], next_handle := Suc (next_handle s),
             timeout := Some (next_handle s),
             invocations := invocations s @ [(fst c + wait, snd c)]\<rparr>
      else s\<lparr>clock := max (fst c) T, timer_table := [(next_handle s, fst c + wait, snd c)],
             next_handle := Suc (next_handle s), timeout := Some (next_handle s)\<rparr>)"
proof (cases "fst c + wait \<le> T")
  case True
  let ?s' = "call_at (fst c) (snd c) s"
  have s': "?s' = s\<lparr>clock := fst c, timer_table := [(next_handle s, fst c + wait, snd c)],
             next_handle := Suc (next_handle s), timeout := Some (next_handle s)\<rparr>"
    using assms by (rule call_at_ready)
  have "run_timers T ?s' = ?s'\<lparr>clock := T, timer_table := [],
      invocations := invocations ?s' @ [(fst c + wait, snd c)]\<rparr>"
    by (rule run_timers_due [where h = "next_handle s"]) (simp_all add: s' True)
  with True show ?thesis by (simp add: s')
next
  case False
  let ?s' = "call_at (fst c) (snd c) s"
  have s': "?s' = s\<lparr>clock := fst c, timer_table := [(next_handle s, fst c + wait, snd c)],
             next_handle := Suc (next_handle s), timeout := Some (next_handle s)\<rparr>"
    using assms by (rule call_at_ready)
  have "run_timers T ?s' = ?s'\<lparr>clock := max (clock ?s') T\<rparr>"
    by (rule run_timers_not_due [where h = "next_handle s" and d = "fst c + wait" and a = "snd c"])
       (use False in \<open>simp_all add: s'\<close>)
  with False show ?thesis by (simp add: s')
qed

lemma burst_invocations:
  assumes "ready (fst (hd cs)) s" "cs \<noteq> []"
    "successively (\<lambda>c c'. fst c \<le> fst c' \<and> fst c' < fst c + wait) cs"
    "wait_ms s = wait"
  shows "invocations (run_timers T (calls cs s)) =
           invocations s @ (if fst (last cs) + wait \<le> T
                            then [(fst (last cs) + wait, snd (last cs))] else []) \<and>
         (fst (last cs) + wait \<le> T \<longrightarrow>
            timer_table (run_timers T (calls cs s)) = [] \<and>
            clock (run_timers T (calls cs s)) = T \<and>
            wait_ms (run_timers T (calls cs s)) = wait)"
  using assms
proof (induction cs arbitrary: s)
  case Nil
  then show ?case by simp
next
  case (Cons c cs)
  show ?case
  proof (cases cs)
    case Nil
    from Cons.prems(1) have r: "ready (fst c) s" by simp
    show ?thesis unfolding Nil calls_Cons
      using Cons.prems(4) by (simp add: burst_end [OF r Cons.prems(4)] calls_def)
  next
    case (Cons c' cs')
    from Cons.prems(1) have r: "ready (fst c) s" by simp
    let ?s' = "call_at (fst c) (snd c) s"
    have s': "?s' = s\<lparr>clock := fst c, timer_table := [(next_handle s, fst c + wait, snd c)],
             next_handle := Suc (next_handle s), timeout := Some (next_handle s)\<rparr>"
      using r Cons.prems(4) by (rule call_at_ready)
    from Cons.prems(3) Cons have gap: "fst c \<le> fst c'" "fst c' < fst c + wait"
      and rest: "successively (\<lambda>c c'. fst c \<le> fst c' \<and> fst c' < fst c + wait) cs"
      by simp_all
    have "ready (fst (hd cs)) ?s'"
      using gap Cons by (simp add: ready_def s')
    moreover have "wait_ms ?s' = wait" using Cons.prems(4) by (simp add: s')
    ultimately have "ready (fst (hd cs)) ?s'" "wait_ms ?s' = wait" by simp_all
    from Cons.IH [OF this(1) _ rest this(2)] Cons
    have "invocations (run_timers T (calls cs ?s')) =
           invocations ?s' @ (if fst (last cs) + wait \<le> T
                            then [(fst (last cs) + wait, snd (last cs))] else []) \<and>
         (fst (last cs) + wait \<le> T \<longrightarrow>
            timer_table (run_timers T (calls cs ?s')) = [] \<and>
            clock (run_timers T (calls cs ?s')) = T \<and>
            wait_ms (run_timers T (calls cs ?s')) = wait)" by simp
    moreover have "invocations ?s' = invocations s" by (simp add: s')
    moreover have "last (c # cs) = last cs" using Cons by simp
    ultimately show ?thesis by (simp add: calls_Cons)
  qed
qed

text \<open>
  Claim C7. A burst is a non-empty sequence of calls of the wrapper in time order, each
  less than \<open>wait\<close> milliseconds after the one before, made while no timer is pending.
  Up to any time \<open>T\<close> the burst has invoked \<open>func\<close> exactly once if \<open>wait\<close>
  milliseconds have passed since its last call, at that moment and with the arguments of
  the last call, and not at all before; afterwards no timer is pending, so the next burst
  is treated the same way. Timers are idealised: a timer runs exactly when it is due.
\<close>

theorem debounce_fires_once_per_burst:
  assumes "timer_table s = []" and "cs \<noteq> []" and "clock s \<le> fst (hd cs)"
    and "successively (\<lambda>c c'. fst c \<le> fst c' \<and> fst c' < fst c + wait_ms s) cs"
  shows "invocations (run_timers T (calls cs s)) =
           invocations s @ (if fst (last cs) + wait_ms s \<le> T
                            then [(fst (last cs) + wait_ms s, snd (last cs))] else []) \<and>
         (fst (last cs) + wait_ms s \<le> T \<longrightarrow>
            timer_table (run_timers T (calls cs s)) = [] \<and>
            clock (run_timers T (calls cs s)) = T \<and>
            wait_ms (run_timers T (calls cs s)) = wait_ms s)"
proof -
  from assms(1,3) have "ready (fst (hd cs)) s" by (simp add: ready_def)
  from burst_invocations [OF this assms(2) assms(4) refl] show ?thesis .
qed

text \<open>
  The calls of the claim, at 0, 50 and 100 ms with a wait of 300 ms: by 400 ms \<open>func\<close>
  has run once, at 400 ms, with the arguments of the third call; by 399 ms it has not run.
\<close>

theorem debounce_fires_once_per_burst_witness:
  "invocations (run_timers 400
       (calls [(0, ''first''), (50, ''second''), (100, ''third'')] (debounce 300))) =
     [(400, ''third'')] \<and>
   invocations (run_timers 399
       (calls [(0, ''first''), (50, ''second''), (100, ''third'')] (debounce 300))) =
     []"
proof -
  let ?cs = "[(0::nat, ''first''), (50, ''second''), (100, ''third'')]"
  have h: "timer_table (debounce 300 :: string debounced) = []" "?cs \<noteq> []"
    "clock (debounce 300 :: string debounced) \<le> fst (hd ?cs)"
    "successively (\<lambda>c c'. fst c \<le> fst c' \<and>
        fst c' < fst c + wait_ms (debounce 300 :: string debounced)) ?cs"
    by (simp_all add: debounce_def)
  from debounce_fires_once_per_burst [OF h, of 400] debounce_fires_once_per_burst [OF h, of 399]
  show ?thesis by (simp add: debounce_def)
qed

subsection \<open>showConfirmModal\<close>

lemma interactions_snoc: "interactions (es @ [e]) m = interact e (interactions es m)"
  by (simp add: interactions_def)

lemma interact_callbacks:
  "onConfirm (interact e m) = onConfirm m" "onCancel (interact e m) = onCancel m"
  by (cases e; simp add: hide_def Let_def split: option.splits)+

lemma interactions_callbacks:
  "onConfirm (interactions es m) = onConfirm m \<and> onCancel (interactions es m) = onCancel m"
  by (induction es rule: rev_induct) (simp_all add: interactions_snoc interact_callbacks, simp add: interactions_def)

lemma fired_interact:
  "fired (interact e m) =
     fired m @
       (if phase m = Detached then []
        else case e of
               ClickConfirm \<Rightarrow> (case onConfirm m of None \<Rightarrow> [] | Some cb \<Rightarrow> [OnConfirm cb])
             | ClickCancel \<Rightarrow> (case onCancel m of None \<Rightarrow> [] | Some cb \<Rightarrow> [OnCancel cb])
             | Dismiss \<Rightarrow> []
             | ShownNotification \<Rightarrow> []
             | HiddenNotification \<Rightarrow> [])"
  by (cases e) (simp_all add: hide_def Let_def split: option.splits)

lemma length_fired_interact:
  "length (fired (interact e m)) \<le> length (fired m) + (if isClick e then 1 else 0)"
  by (cases e) (simp_all add: hide_def Let_def isClick_def split: option.splits)

lemma length_fired_interactions:
  "length (fired (interactions es m)) \<le> length (fired m) + length (filter isClick es)"
proof (induction es rule: rev_induct)
  case Nil
  show ?case by (simp add: interactions_def)
next
  case (snoc e es)
  have "length (fired (interactions (es @ [e]) m))
        \<le> length (fired (interactions es m)) + (if isClick e then 1 else 0)"
    by (simp only: interactions_snoc length_fired_interact)
  with snoc show ?case by (auto split: if_splits)
qed

lemma no_cancel_fired:
  "onCancel m = None \<Longrightarrow> \<forall>cb. OnCancel cb \<notin> set (fired m) \<Longrightarrow>
     \<forall>cb. OnCancel cb \<notin> set (fired (interactions es m))"
proof (induction es rule: rev_induct)
  case Nil
  then show ?case by (simp add: interactions_def)
next
  case (snoc e es)
  have "onCancel (interactions es m) = None"
    using snoc.prems(1) by (simp add: interactions_callbacks)
  with snoc show ?case
    by (cases e) (auto simp: interactions_snoc fired_interact simp del: interact.simps)
qed

text \<open>
  Claim C8, as amended. The claim says that over any sequence of interactions at most one
  callback fires, and at most once. The two click listeners stay attached for as long as
  the element is in the document and nothing marks the modal as answered, so every click
  that arrives before the element is detached runs its listener again. What holds for
  every sequence of interactions: the callbacks invoked are at most as many as the clicks
  on the two footer buttons, so none fires without a click and at most one fires when
  there is at most one click; and a further interaction adds exactly the callback of the
  clicked button, when that callback was supplied and the modal is not yet detached, and
  nothing for a dismissal, for the end of showing or of hiding, or after detachment.
\<close>

theorem showConfirmModal_callbacks_per_click:
  "length (fired (interactions es (showConfirmModal title msg on_confirm on_cancel)))
     \<le> length (filter isClick es) \<and>
   fired (interactions (es @ [e]) (showConfirmModal title msg on_confirm on_cancel)) =
     fired (interactions es (showConfirmModal title msg on_confirm on_cancel)) @
       (if phase (interactions es (showConfirmModal title msg on_confirm on_cancel)) = Detached
        then []
        else case e of
               ClickConfirm \<Rightarrow> (case on_confirm of None \<Rightarrow> [] | Some cb \<Rightarrow> [OnConfirm cb])
             | ClickCancel \<Rightarrow> (case on_cancel of None \<Rightarrow> [] | Some cb \<Rightarrow> [OnCancel cb])
             | Dismiss \<Rightarrow> []
             | ShownNotification \<Rightarrow> []
             | HiddenNotification \<Rightarrow> [])"
proof
  show "length (fired (interactions es (showConfirmModal title msg on_confirm on_cancel)))
     \<le> length (filter isClick es)"
    using length_fired_interactions [of es "showConfirmModal title msg on_confirm on_cancel"]
    by (simp add: showConfirmModal_def)
next
  let ?m = "interactions es (showConfirmModal title msg on_confirm on_cancel)"
  have "onConfirm ?m = on_confirm" "onCancel ?m = on_cancel"
    by (simp_all add: interactions_callbacks showConfirmModal_def)
  then show "fired (interactions (es @ [e]) (showConfirmModal title msg on_confirm on_cancel)) =
     fired ?m @
       (if phase ?m = Detached
        then []
        else case e of
               ClickConfirm \<Rightarrow> (case on_confirm of None \<Rightarrow> [] | Some cb \<Rightarrow> [OnConfirm cb])
             | ClickCancel \<Rightarrow> (case on_cancel of None \<Rightarrow> [] | Some cb \<Rightarrow> [OnCancel cb])
             | Dismiss \<Rightarrow> []
             | ShownNotification \<Rightarrow> []
             | HiddenNotification \<Rightarrow> [])"
    by (simp only: interactions_snoc fired_interact)
qed

text \<open>
  The claim as stated fails for a double click on the confirm button of a modal that has
  finished showing: the second click arrives while the modal is hiding, and
  \<open>onConfirm\<close> runs twice.
\<close>

theorem showConfirmModal_fires_twice_counterexample:
  "fired (interactions [ShownNotification, ClickConfirm, ClickConfirm]
            (showConfirmModal (js ''Excluir'') (js ''Tem certeza?'') (Some ''confirm'') (Some ''cancel'')))
     = [OnConfirm ''confirm'', OnConfirm ''confirm'']"
  by (simp add: interactions_def showConfirmModal_def hide_def)

text \<open>
  Claim C10. The global \<open>window.showConfirmModal\<close> hands its callback to the helper as
  the confirm handler and passes no cancel handler: the modal it opens has the callback
  as \<open>onConfirm\<close> and nothing as \<open>onCancel\<close>. For every sequence of interactions, a
  further interaction invokes the callback, as the confirm handler, exactly when it is a
  click on the confirm button of a modal not yet detached and a callback was given, and
  invokes nothing otherwise; in particular a click on the cancel button adds no
  invocation, and no cancel handler is ever invoked.
\<close>

theorem window_showConfirmModal_forwards_confirm_only:
  "onConfirm (window_showConfirmModal title msg callback) = callback \<and>
   onCancel (window_showConfirmModal title msg callback) = None \<and>
   fired (interactions (es @ [e]) (window_showConfirmModal title msg callback)) =
     fired (interactions es (window_showConfirmModal title msg callback)) @
       (if phase (interactions es (window_showConfirmModal title msg callback)) = Detached
        then []
        else case e of
               ClickConfirm \<Rightarrow> (case callback of None \<Rightarrow> [] | Some cb \<Rightarrow> [OnConfirm cb])
             | ClickCancel \<Rightarrow> []
             | Dismiss \<Rightarrow> []
             | ShownNotification \<Rightarrow> []
             | HiddenNotification \<Rightarrow> []) \<and>
   fired (interactions (es @ [ClickCancel]) (window_showConfirmModal title msg callback)) =
     fired (interactions es (window_showConfirmModal title msg callback)) \<and>
   (\<forall>cb. OnCancel cb \<notin> set (fired (interactions es (window_showConfirmModal title msg callback))))"
proof (intro conjI)
  let ?w = "window_showConfirmModal title msg callback"
  show c: "onConfirm ?w = callback" and n: "onCancel ?w = None"
    by (simp_all add: window_showConfirmModal_def showConfirmModal_def)
  have cs: "onConfirm (interactions es ?w) = callback" "onCancel (interactions es ?w) = None"
    by (simp_all add: interactions_callbacks c n)
  show "fired (interactions (es @ [e]) ?w) =
     fired (interactions es ?w) @
       (if phase (interactions es ?w) = Detached
        then []
        else case e of
               ClickConfirm \<Rightarrow> (case callback of None \<Rightarrow> [] | Some cb \<Rightarrow> [OnConfirm cb])
             | ClickCancel \<Rightarrow> []
             | Dismiss \<Rightarrow> []
             | ShownNotification \<Rightarrow> []
             | HiddenNotification \<Rightarrow> [])"
    by (cases e) (simp_all add: interactions_snoc fired_interact cs del: interact.simps)
  show "fired (interactions (es @ [ClickCancel]) ?w) = fired (interactions es ?w)"
    by (simp add: interactions_snoc fired_interact cs del: interact.simps)
  show "\<forall>cb. OnCancel cb \<notin> set (fired (interactions es ?w))"
    by (rule no_cancel_fired) (simp_all add: window_showConfirmModal_def showConfirmModal_def)
qed

text \<open>
  Through the global entry point with the callback \<open>callback\<close>: a click on the confirm
  button invokes it as the confirm handler, a click on the cancel button invokes
  nothing.
\<close>

theorem window_showConfirmModal_forwards_confirm_only_witness:
  "fired (interactions [ClickConfirm]
      (window_showConfirmModal (js ''Excluir'') (js ''Tem certeza?'') (Some ''callback''))) =
     [OnConfirm ''callback''] \<and>
   fired (interactions [ClickCancel]
      (window_showConfirmModal (js ''Excluir'') (js ''Tem certeza?'') (Some ''callback''))) =
     []"
proof -
  let ?w = "window_showConfirmModal (js ''Excluir'') (js ''Tem certeza?'') (Some ''callback'')"
  have p: "phase (interactions [] ?w) \<noteq> Detached" "fired (interactions [] ?w) = []"
    by (simp_all add: interactions_def window_showConfirmModal_def showConfirmModal_def)
  from window_showConfirmModal_forwards_confirm_only
         [of "js ''Excluir''" "js ''Tem certeza?''" "Some ''callback''" "[]" ClickConfirm]
       window_showConfirmModal_forwards_confirm_only
         [of "js ''Excluir''" "js ''Tem certeza?''" "Some ''callback''" "[]" ClickCancel]
       p
  show ?thesis by simp
qed

subsection \<open>validateField\<close>

text \<open>
  The model of the e-mail expression accepts exactly the strings the expression matches:
  a non-empty run, an at sign, a non-empty run, a full stop and a non-empty run, the runs
  free of white space and at signs.
\<close>

lemma emailChar_dot: "emailChar 0x2E" and emailChar_at: "\<not> emailChar 0x40"
  by (simp_all add: emailChar_def isWhiteSpace_def)

lemma emailRegex_language:
  "emailRegex v \<longleftrightarrow>
     (\<exists>a b c. v = a @ [0x40] @ b @ [0x2E] @ c \<and> a \<noteq> [] \<and> b \<noteq> [] \<and> c \<noteq> [] \<and>
        list_all emailChar a \<and> list_all emailChar b \<and> list_all emailChar c)"
proof
  assume e: "emailRegex v"
  let ?a = "takeWhile emailChar v"
  from e obtain dom where a: "?a \<noteq> []" and r: "dropWhile emailChar v = 0x40 # dom"
    and d: "list_all emailChar dom" and dot: "0x2E \<in> set (butlast (tl dom))"
    by (auto simp: emailRegex_def Let_def split: list.splits)
  from dot obtain p q where pq: "butlast (tl dom) = p @ 0x2E # q" by (meson split_list)
  then have t: "tl dom \<noteq> []" by auto
  then have dom: "dom = hd dom # butlast (tl dom) @ [last (tl dom)]"
    by (cases dom) auto
  have v: "v = ?a @ [0x40] @ (hd dom # p) @ [0x2E] @ (q @ [last (tl dom)])"
    using takeWhile_dropWhile_id [of emailChar v] r dom pq by (metis append_Cons append_Nil append.assoc)
  have "list_all emailChar (hd dom # p @ 0x2E # q @ [last (tl dom)])"
    using d dom pq by (metis append_Cons append.assoc)
  then have "list_all emailChar (hd dom # p)" "list_all emailChar (q @ [last (tl dom)])"
    by simp_all
  moreover have "list_all emailChar ?a" by (simp add: list_all_iff) (meson set_takeWhileD)
  ultimately show "\<exists>a b c. v = a @ [0x40] @ b @ [0x2E] @ c \<and> a \<noteq> [] \<and> b \<noteq> [] \<and> c \<noteq> [] \<and>
        list_all emailChar a \<and> list_all emailChar b \<and> list_all emailChar c"
    using v a by blast
next
  assume "\<exists>a b c. v = a @ [0x40] @ b @ [0x2E] @ c \<and> a \<noteq> [] \<and> b \<noteq> [] \<and> c \<noteq> [] \<and>
        list_all emailChar a \<and> list_all emailChar b \<and> list_all emailChar c"
  then obtain a b c where v: "v = a @ 0x40 # (b @ 0x2E # c)" and ne: "a \<noteq> []" "b \<noteq> []" "c \<noteq> []"
    and al: "list_all emailChar a" "list_all emailChar b" "list_all emailChar c"
    by auto
  from al(1) have "\<forall>x \<in> set a. emailChar x" by (simp add: list_all_iff)
  then have tw: "takeWhile emailChar v = a" and dw: "dropWhile emailChar v = 0x40 # (b @ 0x2E # c)"
    unfolding v using emailChar_at by simp_all
  obtain b0 b' where b: "b = b0 # b'" using ne(2) by (cases b) auto
  obtain c' cl where c: "c = c' @ [cl]" using ne(3) by (cases c rule: rev_cases) auto
  have "butlast (tl (b @ 0x2E # c)) = b' @ 0x2E # c'"
    by (simp add: b c butlast_append)
  then have "0x2E \<in> set (butlast (tl (b @ 0x2E # c)))" by simp
  moreover have "list_all emailChar (b @ 0x2E # c)" using al emailChar_dot by simp
  ultimately show "emailRegex v"
    using ne(1) by (simp add: emailRegex_def Let_def tw dw del: butlast.simps)
qed


lemma all_dropWhile: "(\<forall>x \<in> set (dropWhile P s). P x) \<longleftrightarrow> (\<forall>x \<in> set s. P x)"
  by (induction s) auto

lemma trim_Nil_iff: "trim s = [] \<longleftrightarrow> (\<forall>c \<in> set s. isWhiteSpace c)"
  by (simp add: trim_def all_dropWhile)

lemma username_empty: "\<not> valid (username [])"
  by (simp add: username_def)

lemma password_empty:
  "password [] = \<lparr> valid = False, message = js ''Senha deve ter pelo menos 6 caracteres'' \<rparr>"
  by (simp add: password_def)

lemma customValidations_cases:
  "customValidations n = InheritedReturning \<or> customValidations n = InheritedThrowing
     \<longleftrightarrow> n \<in> set objectPrototypeNames"
  by (simp add: customValidations_def objectPrototypeNames_def js_def)



lemma returning_names:
  "n \<in> set [js ''constructor'', js ''isPrototypeOf'', js ''toString''] \<Longrightarrow>
     n \<in> set objectPrototypeNames"
  by (auto simp: objectPrototypeNames_def)

lemma rules_chain:
  fixes r e mn mx :: bool and m1 m2 m3 m4 :: jsstring
  shows "(case (if r then (False, m1) else (True, [])) of
            (i0, g0) \<Rightarrow>
              (case (if e then (False, m2) else (i0, g0)) of
                 (i1, g1) \<Rightarrow>
                   (case (if mn then (False, m3) else (i1, g1)) of
                      (i2, g2) \<Rightarrow>
                        (case (if mx then (False, m4) else (i2, g2)) of
                           (i3, g3) \<Rightarrow> F i3 g3)))) =
         F (\<not> r \<and> \<not> e \<and> \<not> mn \<and> \<not> mx)
           (if mx then m4 else if mn then m3 else if e then m2 else if r then m1 else [])"
  by (cases r; cases e; cases mn; cases mx; simp)

lemma validateField_unfold:
  "validateField f =
     (let v = trim (field_value f);
          minLength = getAttribute (field_attributes f) ''minlength'';
          maxLength = getAttribute (field_attributes f) ''maxlength'';
          r = (hasAttribute (field_attributes f) ''required'' \<and> v = []);
          e = (field_type f = js ''email'' \<and> v \<noteq> [] \<and> \<not> emailRegex v);
          mn = (truthy minLength \<and> length v > 0 \<and>
                less_number (int (length v)) (parseInt (the minLength)));
          mx = (truthy maxLength \<and> greater_number (int (length v)) (parseInt (the maxLength)));
          ok = (\<not> r \<and> \<not> e \<and> \<not> mn \<and> \<not> mx);
          msg = (if mx then messageMaxLength (the maxLength)
                 else if mn then messageMinLength (the minLength)
                 else if e then messageEmail else if r then messageRequired else [])
      in if hasAttribute (field_attributes f) ''data-validate'' then
           (case customValidations (the (getAttribute (field_attributes f) ''data-validate'')) of
              Own customValidation \<Rightarrow>
                (if \<not> valid (customValidation v)
                 then Inr (False, updateFieldValidationState f False (message (customValidation v)))
                 else Inr (ok, updateFieldValidationState f ok msg))
            | InheritedReturning \<Rightarrow> Inr (False, updateFieldValidationState f False [])
            | InheritedThrowing \<Rightarrow> Inl TypeError
            | Undefined \<Rightarrow> Inr (ok, updateFieldValidationState f ok msg))
         else Inr (ok, updateFieldValidationState f ok msg))"
  apply (simp only: validateField_def Let_def prod.case)
  apply (subst rules_chain)
  apply (simp split: property.splits)
  done



lemma max_rule_iff:
  "(truthy (getAttribute as ''maxlength'') \<and>
      greater_number (int (length v)) (parseInt (the (getAttribute as ''maxlength'')))) \<longleftrightarrow>
   (\<exists>m n. getAttribute as ''maxlength'' = Some m \<and> m \<noteq> [] \<and> parseInt m = Some n \<and>
          n < int (length v))"
  by (auto simp: truthy_def greater_number_def split: option.splits)

lemma custom_lookup:
  assumes "\<forall>n. getAttribute as ''data-validate'' = Some n \<longrightarrow> n \<notin> set objectPrototypeNames"
    and "hasAttribute as ''data-validate''"
  shows "customValidations (the (getAttribute as ''data-validate'')) =
           (if getAttribute as ''data-validate'' = Some (js ''username'') then Own username
            else if getAttribute as ''data-validate'' = Some (js ''password'') then Own password
            else Undefined)"
proof -
  from assms(2) obtain n where n: "getAttribute as ''data-validate'' = Some n"
    by (auto simp: hasAttribute_def getAttribute_def)
  with assms(1) have "n \<notin> set objectPrototypeNames" by simp
  with n returning_names [of n] show ?thesis by (auto simp: customValidations_def)
qed

lemma no_custom:
  "\<not> hasAttribute as ''data-validate'' \<Longrightarrow> getAttribute as ''data-validate'' = None"
  by (simp add: hasAttribute_def getAttribute_def)




lemma displayed_message:
  "map_option textContent (feedback (updateFieldValidationState f False msg)) = Some msg \<and>
   ''is-invalid'' \<in> set (classList (updateFieldValidationState f False msg))"
  by (simp add: updateFieldValidationState_def Let_def classList_add_def split: option.splits)



text \<open>
  Claim C1, as amended. The claim says that a required field with an empty value always
  shows the required-field message, the first failing rule supplying the message. Each
  rule that fails overwrites the message of the rules before it, so the last failing rule
  supplies it. What holds for a required field whose value is empty or white space only
  (the name in \<open>data-validate\<close>, if there is one, not being a member inherited from
  \<open>Object.prototype\<close>): the field is reported invalid and marked \<open>is-invalid\<close>; the
  e-mail and minimum-length rules never fail on it; and the message shown is that of the
  validator \<open>username\<close> or \<open>password\<close> when \<open>data-validate\<close> names one, since both
  reject the empty string, else the maximum-length message when \<open>maxlength\<close> parses
  to a negative number, else the required-field message.
\<close>

theorem validateField_required_empty:
  assumes "hasAttribute (field_attributes f) ''required''"
    and "\<forall>c \<in> set (field_value f). isWhiteSpace c"
    and "\<forall>n. getAttribute (field_attributes f) ''data-validate'' = Some n \<longrightarrow>
           n \<notin> set objectPrototypeNames"
  shows "\<exists>g. validateField f = Inr (False, g) \<and>
           ''is-invalid'' \<in> set (classList g) \<and>
           map_option textContent (feedback g) =
             Some (if getAttribute (field_attributes f) ''data-validate'' = Some (js ''username'')
                   then js (''Username deve conter apenas letras, n'' @ [CHR 0xFA] @
                            ''meros e underscore'')
                   else if getAttribute (field_attributes f) ''data-validate'' = Some (js ''password'')
                   then js ''Senha deve ter pelo menos 6 caracteres''
                   else if \<exists>m n. getAttribute (field_attributes f) ''maxlength'' = Some m \<and>
                             m \<noteq> [] \<and> parseInt m = Some n \<and> n < 0
                   then js (''M'' @ [CHR 0xE1] @ ''ximo '') @
                        the (getAttribute (field_attributes f) ''maxlength'') @ js '' caracteres''
                   else js (''Este campo '' @ [CHR 0xE9] @ '' obrigat'' @ [CHR 0xF3] @ ''rio''))"
proof -
  let ?A = "field_attributes f"
  define C where "C \<longleftrightarrow> (\<exists>m n. getAttribute ?A ''maxlength'' = Some m \<and>
                             m \<noteq> [] \<and> parseInt m = Some n \<and> n < 0)"
  define M where "M =
     (if getAttribute ?A ''data-validate'' = Some (js ''username'')
                   then js (''Username deve conter apenas letras, n'' @ [CHR 0xFA] @
                            ''meros e underscore'')
                   else if getAttribute ?A ''data-validate'' = Some (js ''password'')
                   then js ''Senha deve ter pelo menos 6 caracteres''
                   else if C
                   then js (''M'' @ [CHR 0xE1] @ ''ximo '') @
                        the (getAttribute ?A ''maxlength'') @ js '' caracteres''
                   else js (''Este campo '' @ [CHR 0xE9] @ '' obrigat'' @ [CHR 0xF3] @ ''rio''))"
  from assms(2) have v: "trim (field_value f) = []" by (simp add: trim_Nil_iff)
  have mx: "(truthy (getAttribute ?A ''maxlength'') \<and>
      greater_number (int (length ([]::jsstring))) (parseInt (the (getAttribute ?A ''maxlength'')))) \<longleftrightarrow> C"
    using max_rule_iff [of ?A "[]"] by (simp add: C_def)
  have mn: "\<not> (truthy (getAttribute ?A ''minlength'') \<and> length ([]::jsstring) > 0 \<and>
      less_number (int (length ([]::jsstring))) (parseInt (the (getAttribute ?A ''minlength''))))"
    by simp
  have d: "js ''username'' \<noteq> js ''password''" by (simp add: js_def)
  have eq: "validateField f = Inr (False, updateFieldValidationState f False M)"
  proof (cases "hasAttribute ?A ''data-validate''")
    case False
    show ?thesis
      unfolding validateField_unfold Let_def v mx
      by (simp add: False assms(1) M_def no_custom [OF False] messageMaxLength_def
            messageRequired_def)
  next
    case True
    show ?thesis
      unfolding validateField_unfold Let_def v mx custom_lookup [OF assms(3) True]
      using d
      by (simp add: True assms(1) M_def username_def password_empty messageMaxLength_def
            messageRequired_def)
  qed
  have "\<exists>g. validateField f = Inr (False, g) \<and> ''is-invalid'' \<in> set (classList g) \<and>
           map_option textContent (feedback g) = Some M"
    using eq displayed_message [of f M] by blast
  then show ?thesis unfolding M_def C_def .
qed

text \<open>A required field holding three blanks and no other constraint shows the required-field message.\<close>

theorem validateField_required_empty_witness:
  "hasAttribute (field_attributes \<lparr> field_value = js ''   '', field_type = js ''text'',
        field_attributes = [(''required'', [])], classList = [], feedback = None \<rparr>) ''required'' \<and>
   list_all isWhiteSpace (field_value \<lparr> field_value = js ''   '', field_type = js ''text'',
        field_attributes = [(''required'', [])], classList = [], feedback = None \<rparr>) \<and>
   (\<exists>g. validateField \<lparr> field_value = js ''   '', field_type = js ''text'',
        field_attributes = [(''required'', [])], classList = [], feedback = None \<rparr> = Inr (False, g) \<and>
        map_option textContent (feedback g) =
          Some (js (''Este campo '' @ [CHR 0xE9] @ '' obrigat'' @ [CHR 0xF3] @ ''rio'')))"
proof -
  let ?f = "\<lparr> field_value = js ''   '', field_type = js ''text'',
        field_attributes = [(''required'', [])], classList = [], feedback = None \<rparr>"
  have h1: "hasAttribute (field_attributes ?f) ''required''" by (simp add: hasAttribute_def)
  have h2: "\<forall>c \<in> set (field_value ?f). isWhiteSpace c" by (simp add: js_def isWhiteSpace_def)
  have h3: "\<forall>n. getAttribute (field_attributes ?f) ''data-validate'' = Some n \<longrightarrow>
           n \<notin> set objectPrototypeNames" by (simp add: getAttribute_def)
  from validateField_required_empty [OF h1 h2 h3]
  have "\<exists>g. validateField ?f = Inr (False, g) \<and>
        map_option textContent (feedback g) =
          Some (js (''Este campo '' @ [CHR 0xE9] @ '' obrigat'' @ [CHR 0xF3] @ ''rio''))"
    by (auto simp: getAttribute_def)
  with h1 h2 show ?thesis by (simp add: list_all_iff)
qed

text \<open>
  The claim as stated fails on an empty required field with \<open>data-validate\<close> set to
  \<open>username\<close>: the message shown is the one of the username validator.
\<close>

theorem validateField_required_username_counterexample:
  "validateField \<lparr> field_value = [], field_type = js ''text'',
        field_attributes = [(''required'', []), (''data-validate'', js ''username'')],
        classList = [], feedback = None \<rparr> =
     Inr (False,
          \<lparr> field_value = [], field_type = js ''text'',
            field_attributes = [(''required'', []), (''data-validate'', js ''username'')],
            classList = [''is-invalid''],
            feedback = Some \<lparr> textContent = js (''Username deve conter apenas letras, n'' @
                                                [CHR 0xFA] @ ''meros e underscore''),
                              style_display = js ''block'' \<rparr> \<rparr>) \<and>
   js (''Username deve conter apenas letras, n'' @ [CHR 0xFA] @ ''meros e underscore'') \<noteq>
     messageRequired"
proof
  have t: "trim [] = []" by (simp add: trim_def)
  have c: "customValidations (js ''username'') = Own username" by (simp add: customValidations_def)
  show "validateField \<lparr> field_value = [], field_type = js ''text'',
        field_attributes = [(''required'', []), (''data-validate'', js ''username'')],
        classList = [], feedback = None \<rparr> =
     Inr (False,
          \<lparr> field_value = [], field_type = js ''text'',
            field_attributes = [(''required'', []), (''data-validate'', js ''username'')],
            classList = [''is-invalid''],
            feedback = Some \<lparr> textContent = js (''Username deve conter apenas letras, n'' @
                                                [CHR 0xFA] @ ''meros e underscore''),
                              style_display = js ''block'' \<rparr> \<rparr>)"
    by (simp add: validateField_def Let_def t c hasAttribute_def getAttribute_def truthy_def
          username_def updateFieldValidationState_def createFeedbackElement_def
          classList_add_def classList_remove_def)
next
  show "js (''Username deve conter apenas letras, n'' @ [CHR 0xFA] @ ''meros e underscore'') \<noteq>
     messageRequired"
    by (simp add: messageRequired_def js_def)
qed

end
